theory Spec2Isabelle
  imports
    Complex_Main
    "HOL-Library.Sublist"
    "HOL-Library.Multiset"
    "HOL-Library.Product_Lexorder"
begin

section \<open>Strings\<close>

text \<open>
  JavaScript strings are modelled as \<open>string\<close> (a list of characters) under the
  assumption that the text is ASCII, so that \<open>length\<close> is the number of UTF-16 code units
  that \<open>String.prototype.length\<close> counts.
\<close>

definition isSpace :: "char \<Rightarrow> bool" where
  \<comment> \<open>the ASCII characters that \<open>String.prototype.trim\<close> removes\<close>
  "isSpace c = (c \<in> set [CHR 0x09, CHR 0x0A, CHR 0x0B, CHR 0x0C, CHR 0x0D, CHR 0x20])"

definition trim :: "string \<Rightarrow> string" where
  "trim s = rev (dropWhile isSpace (rev (dropWhile isSpace s)))"

definition digit_char :: "nat \<Rightarrow> char" where
  "digit_char d = (''0123456789'' ! d)"

fun string_of_nat :: "nat \<Rightarrow> string" where
  \<comment> \<open>the decimal rendering of a non-negative integer inside a template literal\<close>
  "string_of_nat n =
     (if n < 10 then [digit_char n] else string_of_nat (n div 10) @ [digit_char (n mod 10)])"

declare string_of_nat.simps [simp del]

definition toLowerChar :: "char \<Rightarrow> char" where
  "toLowerChar c =
     (case map_of (zip ''ABCDEFGHIJKLMNOPQRSTUVWXYZ'' ''abcdefghijklmnopqrstuvwxyz'') c of
        None \<Rightarrow> c
      | Some l \<Rightarrow> l)"

definition toLowerCase :: "string \<Rightarrow> string" where
  "toLowerCase s = map toLowerChar s"

definition str_includes :: "string \<Rightarrow> string \<Rightarrow> bool" where
  \<comment> \<open>\<open>s.includes(sub)\<close>: \<open>sub\<close> occurs in \<open>s\<close> as a contiguous run\<close>
  "str_includes s sub = sublist sub s"

definition NL :: char where
  "NL = CHR 0x0A"

function splitParagraphs :: "string \<Rightarrow> string \<Rightarrow> string list" where
  \<comment> \<open>\<open>text.split\<close> at every run of two or more line feeds, with the piece read so far
      (reversed) as first argument: such a run ends the piece; one line feed alone belongs
      to it\<close>
  "splitParagraphs cur [] = [rev cur]"
| "splitParagraphs cur (c # cs) =
     (if c = NL \<and> cs \<noteq> [] \<and> hd cs = NL
      then rev cur # splitParagraphs [] (dropWhile (\<lambda>d. d = NL) cs)
      else splitParagraphs (c # cur) cs)"
  by pat_completeness auto
termination
  by (relation "measure (\<lambda>(cur, s). length s)")
     (auto simp: less_Suc_eq_le length_dropWhile_le)

section \<open>Content (src/core/types.ts)\<close>

text \<open>
  The interface \<open>StructuredContent\<close> of src/core/types.ts. The fields \<open>type\<close> and \<open>text\<close> are
  named \<open>ctype\<close> and \<open>ctext\<close> here, both being reserved words.
\<close>

datatype StructuredContent =
  StructuredContent
    (ctype: string)
    (level: "nat option")
    (ctext: "string option")
    (children: "StructuredContent list option")
    (attrs: "(string \<times> string) list option")

text \<open>Content is an array of nodes or a string.\<close>

datatype content = Nodes "StructuredContent list" | Text string

section \<open>Errors (src/utils/errors.ts, src/core/types.ts)\<close>

datatype ErrorCode =
  NETWORK_ERROR | DNS_ERROR | TIMEOUT | SSL_ERROR
  | HTTP_CLIENT_ERROR | HTTP_SERVER_ERROR
  | JS_ERROR | RESOURCE_BLOCKED
  | PARSE_ERROR | ENCODING_ERROR | EXTRACTION_ERROR
  | SESSION_NOT_FOUND | SESSION_EXPIRED

record BrowserError =
  code :: ErrorCode
  message :: string
  recoverable :: bool
  suggestion :: "string option"
  details :: "(nat \<times> string) option"

text \<open>
  What a \<open>catch\<close> clause can receive: a \<open>BrowserError\<close>, or another \<open>Error\<close> with its
  \<open>name\<close> and \<open>message\<close>.
\<close>

datatype thrown = IsBrowserError BrowserError | IsError string string

definition timeoutError :: "string \<Rightarrow> nat \<Rightarrow> BrowserError" where
  "timeoutError url timeoutMs =
     \<lparr>code = TIMEOUT,
      message = ''Request to '' @ url @ '' timed out after '' @ string_of_nat timeoutMs @ ''ms'',
      recoverable = True, suggestion = Some ''Try again or increase the timeout'',
      details = None\<rparr>"

definition httpClientError :: "nat \<Rightarrow> string \<Rightarrow> BrowserError" where
  "httpClientError statusCode url =
     (let messages =
            [(400::nat, ''Bad Request''), (401, ''Unauthorized - authentication required''),
             (403, ''Forbidden - access denied''), (404, ''Page not found''),
             (429, ''Too many requests - rate limited'')];
          msg = (case map_of messages statusCode of
                   Some m \<Rightarrow> m
                 | None \<Rightarrow> ''HTTP '' @ string_of_nat statusCode @ '' error'')
      in \<lparr>code = HTTP_CLIENT_ERROR, message = msg @ '' for '' @ url,
          recoverable = (statusCode = 429),
          suggestion =
            (if statusCode = 429 then Some ''Wait a moment and try again''
             else if statusCode = 404 then Some ''Check that the URL is correct''
             else None),
          details = Some (statusCode, url)\<rparr>)"

definition httpServerError :: "nat \<Rightarrow> string \<Rightarrow> BrowserError" where
  "httpServerError statusCode url =
     \<lparr>code = HTTP_SERVER_ERROR,
      message = ''Server error ('' @ string_of_nat statusCode @ '') for '' @ url,
      recoverable = True,
      suggestion = Some ''The server may be temporarily unavailable. Try again later.'',
      details = Some (statusCode, url)\<rparr>"

definition isNetworkError :: "string \<Rightarrow> bool" where
  \<comment> \<open>applied to the message of an \<open>Error\<close>\<close>
  "isNetworkError msg =
     (let m = toLowerCase msg
      in str_includes m ''fetch'' \<or> str_includes m ''network'' \<or> str_includes m ''econnrefused'' \<or>
         str_includes m ''enotfound'' \<or> str_includes m ''etimedout'' \<or> str_includes m ''socket'')"

definition wrapError :: "thrown \<Rightarrow> BrowserError" where
  "wrapError err =
     (case err of
        IsBrowserError e \<Rightarrow> e
      | IsError nm msg \<Rightarrow>
          (let m = toLowerCase msg
           in if str_includes m ''enotfound'' \<or> str_includes m ''getaddrinfo'' then
                \<lparr>code = DNS_ERROR, message = msg, recoverable = False,
                 suggestion = None, details = None\<rparr>
              else if str_includes m ''etimedout'' \<or> str_includes m ''timeout'' then
                \<lparr>code = TIMEOUT, message = msg, recoverable = True,
                 suggestion = None, details = None\<rparr>
              else if str_includes m ''ssl'' \<or> str_includes m ''certificate'' then
                \<lparr>code = SSL_ERROR, message = msg, recoverable = False,
                 suggestion = None, details = None\<rparr>
              else if isNetworkError msg then
                \<lparr>code = NETWORK_ERROR, message = msg, recoverable = True,
                 suggestion = None, details = None\<rparr>
              else
                \<lparr>code = NETWORK_ERROR, message = msg, recoverable = False,
                 suggestion = None, details = None\<rparr>))"

section \<open>Tier fetchers (src/core/engine/tier1-cheerio.ts, tier2-jsdom.ts, tier3-playwright.ts)\<close>

text \<open>
  \<open>PageResult\<close> without its response headers and its wall-clock timing. The tiers are the
  numbers of the enum \<open>EngineTier\<close>: CHEERIO = 1, JSDOM = 2, PLAYWRIGHT = 3.
\<close>

record PageResult =
  url :: string
  title :: string
  html :: string
  statusCode :: nat
  redirectChain :: "string list"
  tierUsed :: nat

text \<open>
  What lies outside the repository is a parameter of the model. \<open>parseUrl\<close> is the
  platform's \<open>new URL(url)\<close>: \<open>None\<close> when the constructor throws, else the \<open>protocol\<close> of
  the parsed URL. \<open>transport\<close> is everything a tier does inside its \<open>try\<close> block up to the
  status check (the HTTP request, the DOM or the browser): for a tier and a URL it either
  loads a page or throws an \<open>Error\<close>.
\<close>

datatype loaded =
  Loaded (l_status: nat) (l_url: string) (l_title: string) (l_html: string)
         (l_redirected: bool) (l_redirectedFrom: "string list")
  | Throws string string

record Env =
  parseUrl :: "string \<Rightarrow> string option"
  transport :: "nat \<Rightarrow> string \<Rightarrow> loaded"

definition validateUrl :: "Env \<Rightarrow> string \<Rightarrow> BrowserError option" where
  \<comment> \<open>the two checks that open each of the three fetchers; \<open>None\<close> when the URL passes\<close>
  "validateUrl env u =
     (case parseUrl env u of
        None \<Rightarrow> Some (wrapError (IsError ''Error'' (''Invalid URL: '' @ u)))
      | Some protocol \<Rightarrow>
          (if protocol \<notin> set [''http:'', ''https:'']
           then Some (wrapError (IsError ''Error'' (''Unsupported protocol: '' @ protocol)))
           else None))"

definition checkStatus :: "nat \<Rightarrow> string \<Rightarrow> BrowserError option" where
  "checkStatus st u =
     (if 400 \<le> st \<and> st < 500 then Some (httpClientError st u)
      else if 500 \<le> st then Some (httpServerError st u)
      else None)"

definition cheerioFetch :: "Env \<Rightarrow> string \<Rightarrow> nat \<Rightarrow> BrowserError + PageResult" where
  "cheerioFetch env u timeoutMs =
     (case validateUrl env u of
        Some e \<Rightarrow> Inl e
      | None \<Rightarrow>
          (case transport env 1 u of
             Throws nm msg \<Rightarrow>
               (if nm = ''AbortError'' then Inl (timeoutError u timeoutMs)
                else Inl (wrapError (IsError nm msg)))
           | Loaded st fu ti h red rf \<Rightarrow>
               (case checkStatus st u of
                  Some e \<Rightarrow> Inl (wrapError (IsBrowserError e))
                | None \<Rightarrow>
                    Inr \<lparr>url = fu, title = ti, html = h, statusCode = st,
                         redirectChain = (if red then [u] else []), tierUsed = 1\<rparr>)))"

definition jsdomFetch :: "Env \<Rightarrow> string \<Rightarrow> nat \<Rightarrow> BrowserError + PageResult" where
  "jsdomFetch env u timeoutMs =
     (case validateUrl env u of
        Some e \<Rightarrow> Inl e
      | None \<Rightarrow>
          (case transport env 2 u of
             Throws nm msg \<Rightarrow>
               (if nm = ''AbortError'' then Inl (timeoutError u timeoutMs)
                else Inl (wrapError (IsError nm msg)))
           | Loaded st fu ti h red rf \<Rightarrow>
               (case checkStatus st u of
                  Some e \<Rightarrow> Inl (wrapError (IsBrowserError e))
                | None \<Rightarrow>
                    Inr \<lparr>url = fu, title = ti, html = h, statusCode = st,
                         redirectChain = (if red then [u] else []), tierUsed = 2\<rparr>)))"

definition playwrightFetch :: "Env \<Rightarrow> string \<Rightarrow> nat \<Rightarrow> BrowserError + PageResult" where
  \<comment> \<open>the \<open>catch\<close> of this tier tests the message of whatever was thrown, the HTTP errors
      raised by its own status check included, for the substring \<open>Timeout\<close>\<close>
  "playwrightFetch env u timeoutMs =
     (case validateUrl env u of
        Some e \<Rightarrow> Inl e
      | None \<Rightarrow>
          (case transport env 3 u of
             Throws nm msg \<Rightarrow>
               (if str_includes msg ''Timeout'' then Inl (timeoutError u timeoutMs)
                else Inl (wrapError (IsError nm msg)))
           | Loaded st fu ti h red rf \<Rightarrow>
               (case checkStatus st u of
                  Some e \<Rightarrow>
                    (if str_includes (message e) ''Timeout'' then Inl (timeoutError u timeoutMs)
                     else Inl (wrapError (IsBrowserError e)))
                | None \<Rightarrow>
                    Inr \<lparr>url = fu, title = ti, html = h, statusCode = st,
                         redirectChain = rf, tierUsed = 3\<rparr>)))"

section \<open>Escalation heuristics (src/core/engine/index.ts, tier2-jsdom.ts)\<close>

text \<open>
  The regular expressions of the heuristics, each written as the function it computes on
  ASCII text. \<open>find_ci pat s\<close> is the leftmost occurrence of \<open>pat\<close> in \<open>s\<close>, letter case
  ignored (the flag \<open>i\<close>): the text before it and the text after it.
\<close>

fun indexOf :: "string \<Rightarrow> string \<Rightarrow> nat option" where
  \<comment> \<open>the position of the leftmost occurrence of \<open>pat\<close> in a string\<close>
  "indexOf pat [] = (if pat = [] then Some 0 else None)"
| "indexOf pat (c # cs) =
     (if prefix pat (c # cs) then Some 0
      else (case indexOf pat cs of None \<Rightarrow> None | Some i \<Rightarrow> Some (Suc i)))"

definition find_ci :: "string \<Rightarrow> string \<Rightarrow> (string \<times> string) option" where
  "find_ci pat s =
     (case indexOf (toLowerCase pat) (toLowerCase s) of
        None \<Rightarrow> None
      | Some i \<Rightarrow> Some (take i s, drop (i + length pat) s))"

definition tagContent :: "string \<Rightarrow> string \<Rightarrow> string option" where
  \<comment> \<open>the first capture group of the pattern "<NAME", then characters other than ">",
      then ">", then a lazy run of any characters (the group), then the closing tag of NAME,
      letter case ignored. The run of characters other than ">" can only end right before
      the first ">" that follows "<NAME", and the group ends at the first closing tag after
      it; when the leftmost "<NAME" finds no such ">" or closing tag, a later one finds
      none either\<close>
  "tagContent name h =
     (case find_ci (''<'' @ name) h of
        None \<Rightarrow> None
      | Some (before, r1) \<Rightarrow>
          (case dropWhile (\<lambda>c. c \<noteq> CHR ''>'') r1 of
             [] \<Rightarrow> None
           | gt # r2 \<Rightarrow>
               (case find_ci (''</'' @ name @ ''>'') r2 of
                  None \<Rightarrow> None
                | Some (captured, after) \<Rightarrow> Some captured)))"

lemma indexOf_length: "indexOf pat s = Some i \<Longrightarrow> i + length pat \<le> length s"
proof (induction s arbitrary: i)
  case Nil
  then show ?case by (simp split: if_splits)
next
  case (Cons c cs)
  show ?case
  proof (cases "prefix pat (c # cs)")
    case True
    then have "length pat \<le> length (c # cs)" by (rule prefix_length_le)
    with True Cons.prems show ?thesis by simp
  next
    case False
    with Cons.prems obtain j where "indexOf pat cs = Some j" and "i = Suc j"
      by (auto split: option.splits)
    with Cons.IH [of j] show ?thesis by simp
  qed
qed

lemma find_ci_length:
  assumes "find_ci pat s = Some (before, after)"
  shows "length before + length pat + length after = length s"
proof -
  from assms obtain i where i: "indexOf (toLowerCase pat) (toLowerCase s) = Some i"
    and ba: "before = take i s" "after = drop (i + length pat) s"
    by (auto simp: find_ci_def split: option.splits)
  from indexOf_length [OF i] have "i + length pat \<le> length s"
    by (simp add: toLowerCase_def)
  with ba show ?thesis by simp
qed

function stripBlocks :: "string \<Rightarrow> string \<Rightarrow> string" where
  \<comment> \<open>the global, case-insensitive replacement by the empty string of "<NAME", a lazy
      run of any characters, and the closing tag of NAME: each match runs from an opening
      "<NAME" to the first closing tag after it, and the search resumes behind the match\<close>
  "stripBlocks name s =
     (case find_ci (''<'' @ name) s of
        None \<Rightarrow> s
      | Some (before, r1) \<Rightarrow>
          (case find_ci (''</'' @ name @ ''>'') r1 of
             None \<Rightarrow> s
           | Some (inner, after) \<Rightarrow> before @ stripBlocks name after))"
  by pat_completeness auto
termination
  by (relation "measure (\<lambda>(name, s). length s)") (auto dest!: find_ci_length)

declare stripBlocks.simps [simp del]

lemma dropWhile_eq_Cons_length: "dropWhile P s = x # r \<Longrightarrow> length r < length s"
  using length_dropWhile_le [of P s] by simp

function stripTags :: "string \<Rightarrow> string" where
  \<comment> \<open>the global replacement by the empty string of "<", one or more characters other
      than ">", and ">": a match is a "<", at least one other character, and the first ">"
      after them; "<>" is no match\<close>
  "stripTags s =
     (case dropWhile (\<lambda>c. c \<noteq> CHR ''<'') s of
        [] \<Rightarrow> s
      | lt # r \<Rightarrow>
          (case dropWhile (\<lambda>c. c \<noteq> CHR ''>'') r of
             [] \<Rightarrow> s
           | gt # r2 \<Rightarrow>
               takeWhile (\<lambda>c. c \<noteq> CHR ''<'') s @
               (if takeWhile (\<lambda>c. c \<noteq> CHR ''>'') r = [] then lt # gt # stripTags r2
                else stripTags r2)))"
  by pat_completeness auto
termination
  by (relation "measure length") (auto dest!: dropWhile_eq_Cons_length)

declare stripTags.simps [simp del]

definition bodyText :: "string \<Rightarrow> string" where
  \<comment> \<open>the body text that \<open>needsJavaScript\<close> measures: scripts, styles and tags removed,
      then trimmed\<close>
  "bodyText b = trim (stripTags (stripBlocks ''style'' (stripBlocks ''script'' b)))"

definition signalMinimalBody :: "string \<Rightarrow> bool" where
  "signalMinimalBody h =
     (case tagContent ''body'' h of
        Some b \<Rightarrow> length (trim (stripBlocks ''script'' b)) < 100
      | None \<Rightarrow> False)"

definition signalNoscript :: "string \<Rightarrow> bool" where
  "signalNoscript h =
     (case tagContent ''noscript'' h of
        Some c \<Rightarrow> c \<noteq> [] \<and> 50 < length (trim c)
      | None \<Rightarrow> False)"

definition signalSpaFramework :: "string \<Rightarrow> bool" where
  "signalSpaFramework h =
     (str_includes h ''id=\"root\"'' \<or> str_includes h ''id=\"app\"'' \<or>
      str_includes h ''id=\"__next\"'' \<or> str_includes h ''id=\"__nuxt\"'' \<or>
      str_includes h ''ng-app'' \<or> str_includes h ''data-reactroot'')"

definition JS_REQUIRED_SIGNALS :: "(string \<Rightarrow> bool) list" where
  "JS_REQUIRED_SIGNALS = [signalMinimalBody, signalNoscript, signalSpaFramework]"

definition spaIndicators :: "string list" where
  "spaIndicators =
     [''id=\"root\"'', ''id=\"app\"'', ''data-reactroot'', ''__NEXT_DATA__'',
      ''id=\"app\"'', ''v-cloak'', ''__NUXT__'',
      ''ng-app'', ''ng-version'',
      ''Loading...'', ''Please enable JavaScript'', ''requires JavaScript'', ''noscript'']"

definition needsJavaScript :: "string \<Rightarrow> bool" where
  "needsJavaScript h =
     (let htmlLower = toLowerCase h;
          hasIndicator = list_ex (\<lambda>indicator. str_includes htmlLower (toLowerCase indicator))
                           spaIndicators
      in (case tagContent ''body'' h of
            Some b \<Rightarrow> if b \<noteq> [] \<and> length (bodyText b) < 100 then True else hasIndicator
          | None \<Rightarrow> hasIndicator))"

definition detectJsRequired :: "string \<Rightarrow> bool" where
  "detectJsRequired h = (list_ex (\<lambda>check. check h) JS_REQUIRED_SIGNALS \<or> needsJavaScript h)"

definition complexIndicators :: "string list" where
  "complexIndicators =
     [''__NEXT_DATA__'', ''__NUXT__'', ''webpackJsonp'', ''__webpack_require__'',
      ''customElements.define'', ''attachShadow'', ''IntersectionObserver'',
      ''requestIdleCallback'']"

definition detectNeedsFullBrowser :: "string \<Rightarrow> bool" where
  "detectNeedsFullBrowser h = list_ex (\<lambda>indicator. str_includes h indicator) complexIndicators"

section \<open>Engine (src/core/engine/index.ts)\<close>

record EngineOptions =
  maxTier :: nat
  autoEscalate :: bool
  timeout :: nat

record Engine =
  options :: EngineOptions
  currentTier :: nat
  usedPlaywright :: bool

definition DEFAULT_ENGINE_OPTIONS :: EngineOptions where
  "DEFAULT_ENGINE_OPTIONS = \<lparr>maxTier = 3, autoEscalate = True, timeout = 30000\<rparr>"

definition createEngine :: "nat \<Rightarrow> nat option \<Rightarrow> bool option \<Rightarrow> nat option \<Rightarrow> Engine" where
  \<comment> \<open>the constructor, from \<open>config.browser.timeout\<close> and the optional fields of
      \<open>options\<close>: the defaults, then the configured timeout, then the caller's options\<close>
  "createEngine configTimeout optMaxTier optAutoEscalate optTimeout =
     \<lparr>options =
        \<lparr>maxTier = (case optMaxTier of None \<Rightarrow> maxTier DEFAULT_ENGINE_OPTIONS | Some t \<Rightarrow> t),
         autoEscalate =
           (case optAutoEscalate of None \<Rightarrow> autoEscalate DEFAULT_ENGINE_OPTIONS | Some b \<Rightarrow> b),
         timeout = (case optTimeout of None \<Rightarrow> configTimeout | Some t \<Rightarrow> t)\<rparr>,
      currentTier = 1, usedPlaywright = False\<rparr>"

definition shouldEscalate :: "string \<Rightarrow> nat \<Rightarrow> bool" where
  "shouldEscalate h tier =
     (if tier = 1 then detectJsRequired h
      else if tier = 2 then detectNeedsFullBrowser h
      else False)"

text \<open>
  The \<open>switch\<close> of \<open>Engine.fetch\<close>: the tier fetchers it invokes (one, or none for a number
  that is no tier) and what the \<open>try\<close> block receives from it.
\<close>

definition callTier :: "Env \<Rightarrow> string \<Rightarrow> nat \<Rightarrow> nat \<Rightarrow> nat list \<times> (BrowserError + PageResult)" where
  "callTier env u timeoutMs tier =
     (if tier = 1 then ([1], cheerioFetch env u timeoutMs)
      else if tier = 2 then ([2], jsdomFetch env u timeoutMs)
      else if tier = 3 then ([3], playwrightFetch env u timeoutMs)
      else ([], Inl \<lparr>code = NETWORK_ERROR,
                     message = ''Unknown engine tier: '' @ string_of_nat tier,
                     recoverable = False, suggestion = None, details = None\<rparr>))"

text \<open>
  A run of \<open>Engine.fetch\<close>: the engine as the call leaves it, the tiers whose fetchers were
  invoked, in order, and the page returned or the error thrown.
\<close>

record FetchRun =
  engine :: Engine
  invoked :: "nat list"
  outcome :: "BrowserError + PageResult"

definition enterTier :: "Engine \<Rightarrow> nat \<Rightarrow> Engine" where
  \<comment> \<open>what one pass of the loop writes to the engine: \<open>this.currentTier = tier\<close> and, in
      the case of tier 3, \<open>this.usedPlaywright = true\<close>\<close>
  "enterTier eng tier =
     (if tier = 3 then eng\<lparr>currentTier := tier, usedPlaywright := True\<rparr>
      else eng\<lparr>currentTier := tier\<rparr>)"

lemma options_enterTier [simp]: "options (enterTier eng tier) = options eng"
  by (simp add: enterTier_def)

function fetchLoop :: "Env \<Rightarrow> string \<Rightarrow> Engine \<Rightarrow> nat \<Rightarrow> nat list \<Rightarrow> FetchRun" where
  \<comment> \<open>the \<open>while\<close> loop, from the tier to try next and the fetchers invoked so far\<close>
  "fetchLoop env u eng tier called =
     (if tier \<le> maxTier (options eng) then
        (case callTier env u (timeout (options eng)) tier of
           (now, Inr result) \<Rightarrow>
             if autoEscalate (options eng) \<and> tier < maxTier (options eng) \<and>
                shouldEscalate (html result) tier
             then fetchLoop env u (enterTier eng tier) (tier + 1) (called @ now)
             else \<lparr>engine = enterTier eng tier, invoked = called @ now,
                   outcome = Inr (result\<lparr>tierUsed := tier\<rparr>)\<rparr>
         | (now, Inl error) \<Rightarrow>
             if code error = HTTP_CLIENT_ERROR \<or> code error = HTTP_SERVER_ERROR
             then \<lparr>engine = enterTier eng tier, invoked = called @ now, outcome = Inl error\<rparr>
             else if autoEscalate (options eng) \<and> tier < maxTier (options eng)
             then fetchLoop env u (enterTier eng tier) (tier + 1) (called @ now)
             else \<lparr>engine = enterTier eng tier, invoked = called @ now,
                   outcome = Inl (wrapError (IsBrowserError error))\<rparr>)
      else
        \<lparr>engine = eng, invoked = called,
         outcome = Inl \<lparr>code = NETWORK_ERROR,
                        message = ''Failed to fetch with all available tiers'',
                        recoverable = False, suggestion = None, details = None\<rparr>\<rparr>)"
  by pat_completeness auto
termination
  by (relation "measure (\<lambda>(env, u, eng, tier, called). Suc (maxTier (options eng)) - tier)")
     auto

declare fetchLoop.simps [simp del]

definition Engine_fetch :: "Env \<Rightarrow> Engine \<Rightarrow> string \<Rightarrow> FetchRun" where
  "Engine_fetch env eng u =
     (let tier = (if autoEscalate (options eng) then 1 else maxTier (options eng))
      in fetchLoop env u (eng\<lparr>currentTier := tier\<rparr>) tier [])"

definition Engine_setTier :: "Engine \<Rightarrow> nat \<Rightarrow> BrowserError + Engine" where
  "Engine_setTier eng tier =
     (if tier > maxTier (options eng) then
        Inl \<lparr>code = NETWORK_ERROR,
             message = ''Cannot set tier '' @ string_of_nat tier @ '' when maxTier is '' @
                       string_of_nat (maxTier (options eng)),
             recoverable = False, suggestion = None, details = None\<rparr>
      else Inr (eng\<lparr>currentTier := tier, options := (options eng)\<lparr>autoEscalate := False\<rparr>\<rparr>))"

definition Engine_getActiveTier :: "Engine \<Rightarrow> nat" where
  "Engine_getActiveTier eng = currentTier eng"

text \<open>
  Whether the loop goes on to the next tier after what a tier returned: the two
  \<open>tier++; continue\<close> of \<open>Engine.fetch\<close>.
\<close>

definition escalates :: "Engine \<Rightarrow> nat \<Rightarrow> BrowserError + PageResult \<Rightarrow> bool" where
  "escalates eng tier res =
     (case res of
        Inr result \<Rightarrow> autoEscalate (options eng) \<and> tier < maxTier (options eng) \<and>
                      shouldEscalate (html result) tier
      | Inl error \<Rightarrow> \<not> (code error = HTTP_CLIENT_ERROR \<or> code error = HTTP_SERVER_ERROR) \<and>
                     autoEscalate (options eng) \<and> tier < maxTier (options eng))"

text \<open>Engines and environments for the examples.\<close>

definition defaultEngine :: Engine where
  "defaultEngine = createEngine 30000 None None None"

definition spaEnv :: Env where
  "spaEnv =
     \<lparr>parseUrl = (\<lambda>u. if u = ''https://example.com/'' then Some ''https:'' else None),
      transport = (\<lambda>tier u.
        Loaded 200 u ''App'' ''<html><body><div id=\"root\"></div></body></html>'' False [])\<rparr>"

definition notFoundEnv :: Env where
  "notFoundEnv =
     \<lparr>parseUrl = (\<lambda>u. if u = ''https://example.com/'' then Some ''https:'' else None),
      transport = (\<lambda>tier u. Loaded 404 u [] [] False [])\<rparr>"

definition ftpEnv :: Env where
  "ftpEnv =
     \<lparr>parseUrl = (\<lambda>u. if u = ''ftp://example.com/file'' then Some ''ftp:'' else None),
      transport = (\<lambda>tier u. Throws ''TypeError'' ''fetch failed'')\<rparr>"


definition pinnedEngine :: Engine where
  "pinnedEngine =
     \<lparr>options = \<lparr>maxTier = 3, autoEscalate = False, timeout = 30000\<rparr>,
      currentTier = 1, usedPlaywright = False\<rparr>"

section \<open>Semantic search (src/extraction/semantic.ts)\<close>

text \<open>
  Numbers are modelled as real numbers: the model leaves out the rounding of IEEE doubles
  and their \<open>NaN\<close>. An embedding is a list of numbers. The embedding model is a
  parameter, a function from a text to its embedding; a run of the search returns, beside
  its result, the texts it handed to the model, in order.
\<close>

type_synonym embedding = "real list"

definition SIMILARITY_THRESHOLD :: real where
  "SIMILARITY_THRESHOLD = 0.3"

definition cosineSimilarity :: "embedding \<Rightarrow> embedding \<Rightarrow> string + real" where
  "cosineSimilarity a b =
     (if length a \<noteq> length b then Inl ''Vectors must have same length''
      else
        (let dotProduct = (\<Sum>(aVal, bVal)\<leftarrow>zip a b. aVal * bVal);
             normA = (\<Sum>aVal\<leftarrow>a. aVal * aVal);
             normB = (\<Sum>bVal\<leftarrow>b. bVal * bVal);
             magnitude = sqrt normA * sqrt normB
         in if magnitude = 0 then Inr 0 else Inr (dotProduct / magnitude)))"

record ContentChunk =
  chunkText :: string
  index :: nat
  chunkType :: "string option"
  embedding :: "embedding option"

record SemanticSearchResult =
  chunk :: ContentChunk
  score :: real

record SearchOptions =
  topK :: "nat option"
  threshold :: "real option"
  precomputedEmbeddings :: "embedding list option"

definition noSearchOptions :: SearchOptions where
  "noSearchOptions = \<lparr>topK = None, threshold = None, precomputedEmbeddings = None\<rparr>"

fun scoreChunks ::
  "embedding \<Rightarrow> real \<Rightarrow> (ContentChunk \<times> embedding) list \<Rightarrow> string + SemanticSearchResult list"
where
  \<comment> \<open>the loop over the chunks: a failing \<open>cosineSimilarity\<close> ends the search\<close>
  "scoreChunks queryEmbedding thr [] = Inr []"
| "scoreChunks queryEmbedding thr ((c, e) # rest) =
     (case cosineSimilarity queryEmbedding e of
        Inl err \<Rightarrow> Inl err
      | Inr s \<Rightarrow>
          (case scoreChunks queryEmbedding thr rest of
             Inl err \<Rightarrow> Inl err
           | Inr results \<Rightarrow>
               Inr (if s \<ge> thr then \<lparr>chunk = c, score = s\<rparr> # results else results)))"

definition semanticSearch ::
  "(string \<Rightarrow> embedding) \<Rightarrow> string \<Rightarrow> ContentChunk list \<Rightarrow> SearchOptions
     \<Rightarrow> string list \<times> (string + SemanticSearchResult list)" where
  "semanticSearch model query chunks opts =
     (let k = (case topK opts of None \<Rightarrow> 10 | Some n \<Rightarrow> n);
          thr = (case threshold opts of None \<Rightarrow> SIMILARITY_THRESHOLD | Some t \<Rightarrow> t)
      in if chunks = [] then ([], Inr [])
         else
           (let queryEmbedding = model query;
                usePrecomputed =
                  (case precomputedEmbeddings opts of
                     None \<Rightarrow> False
                   | Some pre \<Rightarrow> length pre = length chunks);
                textsToEmbed = map chunkText chunks;
                chunkEmbeddings =
                  (if usePrecomputed then the (precomputedEmbeddings opts)
                   else map model textsToEmbed);
                calls = [query] @ (if usePrecomputed then [] else textsToEmbed)
            in case scoreChunks queryEmbedding thr (zip chunks chunkEmbeddings) of
                 Inl err \<Rightarrow> (calls, Inl err)
               | Inr results \<Rightarrow> (calls, Inr (take k (sort_key (\<lambda>r. - score r) results)))))"

fun childChunks :: "StructuredContent list \<Rightarrow> nat \<Rightarrow> ContentChunk list" where
  "childChunks [] idx = []"
| "childChunks (child # rest) idx =
     (case ctext child of
        None \<Rightarrow> childChunks rest idx
      | Some t \<Rightarrow>
          if t \<noteq> [] \<and> 10 < length (trim t)
          then \<lparr>chunkText = trim t, index = idx, chunkType = Some ''list-item'',
                embedding = None\<rparr> # childChunks rest (idx + 1)
          else childChunks rest idx)"

fun extractChunksFrom :: "StructuredContent list \<Rightarrow> nat \<Rightarrow> ContentChunk list" where
  \<comment> \<open>the loop of \<open>extractChunks\<close>, from the counter \<open>index\<close>\<close>
  "extractChunksFrom [] idx = []"
| "extractChunksFrom (it # rest) idx =
     (let own = (case ctext it of
                   None \<Rightarrow> []
                 | Some t \<Rightarrow>
                     if t \<noteq> [] \<and> 10 < length (trim t)
                     then [\<lparr>chunkText = trim t, index = idx, chunkType = Some (ctype it),
                            embedding = None\<rparr>]
                     else []);
          kids = (case children it of
                    None \<Rightarrow> []
                  | Some cs \<Rightarrow> childChunks cs (idx + length own))
      in own @ kids @ extractChunksFrom rest (idx + length own + length kids))"

definition extractChunks :: "StructuredContent list \<Rightarrow> ContentChunk list" where
  "extractChunks cont = extractChunksFrom cont 0"

definition extractChunksFromText :: "string \<Rightarrow> ContentChunk list" where
  "extractChunksFromText txt =
     (let paragraphs = filter (\<lambda>p. 10 < length (trim p)) (splitParagraphs [] txt)
      in map (\<lambda>(p, i). \<lparr>chunkText = trim p, index = i, chunkType = Some ''paragraph'',
                        embedding = None\<rparr>)
           (zip paragraphs [0..<length paragraphs]))"

fun joinWith :: "string \<Rightarrow> string list \<Rightarrow> string" where
  \<comment> \<open>\<open>Array.prototype.join\<close>\<close>
  "joinWith sep [] = []"
| "joinWith sep [x] = x"
| "joinWith sep (x # y # rest) = x @ sep @ joinWith sep (y # rest)"

record FilterResult =
  filteredContent :: string
  results :: "SemanticSearchResult list"
  totalChunks :: nat
  matchedChunks :: nat

definition filterByQuery ::
  "(string \<Rightarrow> embedding) \<Rightarrow> content \<Rightarrow> string \<Rightarrow> nat option \<Rightarrow> real option
     \<Rightarrow> string list \<times> (string + FilterResult)" where
  \<comment> \<open>the two optional fields of its \<open>options\<close> are \<open>topK\<close> and \<open>threshold\<close>\<close>
  "filterByQuery model cont query optTopK optThreshold =
     (let chunks = (case cont of
                      Text s \<Rightarrow> extractChunksFromText s
                    | Nodes ns \<Rightarrow> extractChunks ns)
      in if chunks = [] then
           ([], Inr \<lparr>filteredContent = (case cont of Text s \<Rightarrow> s | Nodes ns \<Rightarrow> []),
                    results = [], totalChunks = 0, matchedChunks = 0\<rparr>)
         else
           (case semanticSearch model query chunks
                   \<lparr>topK = optTopK, threshold = optThreshold, precomputedEmbeddings = None\<rparr> of
              (calls, Inl err) \<Rightarrow> (calls, Inl err)
            | (calls, Inr found) \<Rightarrow>
                (calls,
                 Inr \<lparr>filteredContent = joinWith [NL, NL] (map (\<lambda>r. chunkText (chunk r)) found),
                      results = found, totalChunks = length chunks,
                      matchedChunks = length found\<rparr>)))"

text \<open>An embedding model for the examples: the query on one axis, every other text on the other.\<close>

definition axisModel :: "string \<Rightarrow> embedding" where
  "axisModel t = (if t = ''completely unrelated quantum physics'' then [1, 0] else [0, 1])"


section \<open>Token utilities (src/utils/tokens.ts)\<close>

definition estimateTokens :: "string \<Rightarrow> nat" where
  \<comment> \<open>\<open>if (!text) return 0; return Math.ceil(text.length / 4)\<close>\<close>
  "estimateTokens t = (if t = [] then 0 else (length t + 3) div 4)"

definition CONTENT_PRIORITY :: "(string \<times> int) list" where
  "CONTENT_PRIORITY =
     [(''heading'', 100), (''h1'', 100), (''h2'', 90), (''h3'', 80), (''h4'', 70),
      (''h5'', 60), (''h6'', 50), (''paragraph'', 40), (''list'', 35), (''list-item'', 30),
      (''blockquote'', 25), (''code'', 20), (''table'', 15), (''link'', 10), (''image'', 5)]"

fun getContentText :: "StructuredContent \<Rightarrow> string" where
  "getContentText (StructuredContent ty lv tx ch as) =
     trim ((case tx of None \<Rightarrow> [] | Some t \<Rightarrow> t) @
           (case ch of None \<Rightarrow> []
            | Some cs \<Rightarrow> concat (map (\<lambda>child. '' '' @ getContentText child) cs)))"

definition getPriority :: "string \<Rightarrow> nat option \<Rightarrow> int" where
  \<comment> \<open>\<open>level\<close> is truthy when it is present and not 0\<close>
  "getPriority ty lv =
     (if ty = ''heading'' \<and> lv \<noteq> None \<and> lv \<noteq> Some 0 then
        (case map_of CONTENT_PRIORITY (''h'' @ string_of_nat (the lv)) of
           Some p \<Rightarrow> p
         | None \<Rightarrow> (case map_of CONTENT_PRIORITY ''heading'' of Some p \<Rightarrow> p | None \<Rightarrow> 0))
      else (case map_of CONTENT_PRIORITY ty of Some p \<Rightarrow> p | None \<Rightarrow> 0))"

record TruncationResult =
  content :: content
  originalTokens :: nat
  returnedTokens :: nat
  truncated :: bool
  itemsOmitted :: nat

record ItemWithTokens =
  item :: StructuredContent
  tokens :: nat
  itext :: string
  priority :: int

record SortedItem = ItemWithTokens +
  originalIndex :: nat

record TruncateOptions =
  priorityOrder :: "string list option"
  addIndicator :: "bool option"
  textMode :: "string option"

definition noOptions :: TruncateOptions where
  \<comment> \<open>the call without an \<open>options\<close> argument: every optional field is absent\<close>
  "noOptions = \<lparr>priorityOrder = None, addIndicator = None, textMode = None\<rparr>"

definition itemWithTokens :: "StructuredContent \<Rightarrow> ItemWithTokens" where
  "itemWithTokens it =
     (let t = getContentText it
      in \<lparr>item = it, tokens = estimateTokens t, itext = t,
          priority = getPriority (ctype it) (level it)\<rparr>)"

definition priorityMap :: "string list \<Rightarrow> (string \<times> int) list" where
  \<comment> \<open>\<open>new Map(order.map((type, idx) => [type, 1000 - idx]))\<close>: a later duplicate overwrites
      an earlier one, so the list is searched from its end\<close>
  "priorityMap order = rev (zip order (map (\<lambda>idx. 1000 - int idx) [0..<length order]))"

definition applyCustomPriority :: "string list option \<Rightarrow> ItemWithTokens \<Rightarrow> ItemWithTokens" where
  "applyCustomPriority po it =
     (case po of
        None \<Rightarrow> it
      | Some order \<Rightarrow>
          (case map_of (priorityMap order) (ctype (item it)) of
             None \<Rightarrow> it
           | Some p \<Rightarrow> it\<lparr>priority := p\<rparr>))"

definition withIndex :: "ItemWithTokens list \<Rightarrow> SortedItem list" where
  \<comment> \<open>\<open>.map((item, originalIndex) => ({ ...item, originalIndex }))\<close>\<close>
  "withIndex its =
     map (\<lambda>(it, i). \<lparr>item = item it, tokens = tokens it, itext = itext it,
                     priority = priority it, originalIndex = i\<rparr>)
       (zip its [0..<length its])"

definition sortItems :: "SortedItem list \<Rightarrow> SortedItem list" where
  \<comment> \<open>priority descending, then original index ascending\<close>
  "sortItems its = sort_key (\<lambda>it. (- priority it, originalIndex it)) its"

fun greedy :: "int \<Rightarrow> nat \<Rightarrow> SortedItem list \<Rightarrow> nat set \<times> nat \<Rightarrow> nat set \<times> nat" where
  "greedy maxTokens indicatorTokens [] st = st"
| "greedy maxTokens indicatorTokens (it # its) (selectedIndices, usedTokens) =
     (if int (usedTokens + tokens it + indicatorTokens) \<le> maxTokens
      then greedy maxTokens indicatorTokens its
             (insert (originalIndex it) selectedIndices, usedTokens + tokens it)
      else greedy maxTokens indicatorTokens its (selectedIndices, usedTokens))"

definition indicatorNode :: "nat \<Rightarrow> StructuredContent" where
  "indicatorNode n =
     StructuredContent ''paragraph'' None
       (Some (''[... '' @ string_of_nat n @ '' more items truncated due to token limit ...]''))
       None None"

definition truncateContent ::
  "StructuredContent list \<Rightarrow> int \<Rightarrow> TruncateOptions \<Rightarrow> TruncationResult" where
  "truncateContent cont maxTokens opts =
     (let addInd = (case addIndicator opts of None \<Rightarrow> True | Some b \<Rightarrow> b);
          itemsWithTokens = map itemWithTokens cont;
          origTokens = sum_list (map tokens itemsWithTokens)
      in if int origTokens \<le> maxTokens then
           \<lparr>content = Nodes cont, originalTokens = origTokens, returnedTokens = origTokens,
            truncated = False, itemsOmitted = 0\<rparr>
         else
           (let prioritised = map (applyCustomPriority (priorityOrder opts)) itemsWithTokens;
                sortedItems = sortItems (withIndex prioritised);
                indicatorTokens = (if addInd then 20 else 0);
                (selectedIndices, usedTokens) = greedy maxTokens indicatorTokens sortedItems ({}, 0);
                truncatedContent =
                  map (\<lambda>i. cont ! i) (filter (\<lambda>i. i \<in> selectedIndices) [0..<length cont]);
                omitted = length cont - length truncatedContent
            in if addInd \<and> omitted > 0 then
                 \<lparr>content = Nodes (truncatedContent @ [indicatorNode omitted]),
                  originalTokens = origTokens, returnedTokens = usedTokens + indicatorTokens,
                  truncated = True, itemsOmitted = omitted\<rparr>
               else
                 \<lparr>content = Nodes truncatedContent,
                  originalTokens = origTokens, returnedTokens = usedTokens,
                  truncated = True, itemsOmitted = omitted\<rparr>))"

definition js_slice :: "string \<Rightarrow> int \<Rightarrow> int option \<Rightarrow> string" where
  \<comment> \<open>\<open>String.prototype.slice(start, end)\<close>: a negative position counts from the end of the
      string, every position is clamped to the string, and an absent \<open>end\<close> is its length\<close>
  "js_slice s start fin =
     (let len = int (length s);
          from = (if start < 0 then max (len + start) 0 else min start len);
          to = (case fin of None \<Rightarrow> len
                | Some e \<Rightarrow> (if e < 0 then max (len + e) 0 else min e len))
      in take (nat (to - from)) (drop (nat from) s))"

fun smartLoop :: "int \<Rightarrow> nat \<Rightarrow> string list \<Rightarrow> string \<times> nat \<Rightarrow> string \<times> nat" where
  "smartLoop maxTokens indicatorTokens [] st = st"
| "smartLoop maxTokens indicatorTokens (para # ps) (result, toks) =
     (let paraTokens = estimateTokens (para @ [NL, NL])
      in if int (toks + paraTokens + indicatorTokens) \<le> maxTokens
         then smartLoop maxTokens indicatorTokens ps (result @ para @ [NL, NL], toks + paraTokens)
         else (result, toks))"

definition truncateText :: "string \<Rightarrow> int \<Rightarrow> string option \<Rightarrow> string option \<Rightarrow> TruncationResult" where
  "truncateText txt maxTokens mode indicatorOpt =
     (let indicator = (case indicatorOpt of None \<Rightarrow> [NL, NL] @ ''... [truncated]'' | Some i \<Rightarrow> i);
          origTokens = estimateTokens txt
      in if int origTokens \<le> maxTokens then
           \<lparr>content = Text txt, originalTokens = origTokens, returnedTokens = origTokens,
            truncated = False, itemsOmitted = 0\<rparr>
         else
           (let indicatorTokens = estimateTokens indicator;
                availableTokens = maxTokens - int indicatorTokens;
                maxChars = availableTokens * 4;
                truncatedText =
                  (if mode = Some ''middle'' then
                     (let halfChars = maxChars div 2
                      in js_slice txt 0 (Some halfChars) @
                         [NL, NL] @ ''... [content truncated] ...'' @ [NL, NL] @
                         js_slice txt (- halfChars) None)
                   else if mode = Some ''smart'' then
                     trim (fst (smartLoop maxTokens indicatorTokens (splitParagraphs [] txt) ([], 0)))
                       @ indicator
                   else js_slice txt 0 (Some maxChars) @ indicator)
            in \<lparr>content = Text truncatedText, originalTokens = origTokens,
                returnedTokens = estimateTokens truncatedText,
                truncated = True, itemsOmitted = 0\<rparr>))"

definition truncate :: "content \<Rightarrow> int \<Rightarrow> TruncateOptions \<Rightarrow> TruncationResult" where
  "truncate c maxTokens opts =
     (case c of
        Text s \<Rightarrow> truncateText s maxTokens (textMode opts) None
      | Nodes ns \<Rightarrow> truncateContent ns maxTokens opts)"

definition sampleContent :: "StructuredContent list" where
  \<comment> \<open>the content that tests/tokens.test.ts truncates\<close>
  "sampleContent =
     [StructuredContent ''heading'' (Some 1) (Some ''Main Title'') None None,
      StructuredContent ''paragraph'' None
        (Some ''First paragraph with some content that is longer.'') None None,
      StructuredContent ''heading'' (Some 2) (Some ''Section Header'') None None,
      StructuredContent ''paragraph'' None
        (Some ''Second paragraph with different content here.'') None None,
      StructuredContent ''list'' None None
        (Some [StructuredContent ''paragraph'' None (Some ''List item one'') None None,
               StructuredContent ''paragraph'' None (Some ''List item two'') None None])
        None]"

section \<open>Properties of the engine\<close>

lemma callTier_invoked:
  "fst (callTier env u t tier) = (if tier = 1 \<or> tier = 2 \<or> tier = 3 then [tier] else [])"
  by (simp add: callTier_def)

lemmas engine_eval =
  Engine_fetch_def fetchLoop.simps callTier_def cheerioFetch_def jsdomFetch_def
  playwrightFetch_def validateUrl_def checkStatus_def enterTier_def shouldEscalate_def
  createEngine_def DEFAULT_ENGINE_OPTIONS_def

lemma spa_markup_needs_js:
  "detectJsRequired ''<html><body><div id=\"root\"></div></body></html>''"
  by code_simp

lemma spa_markup_no_full_browser:
  "\<not> detectNeedsFullBrowser ''<html><body><div id=\"root\"></div></body></html>''"
  by code_simp

lemma spa_run_invoked:
  "invoked (Engine_fetch spaEnv defaultEngine ''https://example.com/'') = [1, 2]"
  by (simp add: engine_eval spaEnv_def defaultEngine_def spa_markup_needs_js
      spa_markup_no_full_browser)

lemma fetchLoop_exhausted:
  "\<not> tier \<le> maxTier (options eng) \<Longrightarrow> invoked (fetchLoop env u eng tier called) = called"
  by (subst fetchLoop.simps) simp

lemma fetchLoop_escalates:
  assumes "tier \<le> maxTier (options eng)"
    and "callTier env u (timeout (options eng)) tier = (now, res)"
    and "escalates eng tier res"
  shows "fetchLoop env u eng tier called =
         fetchLoop env u (enterTier eng tier) (tier + 1) (called @ now)"
  using assms by (subst fetchLoop.simps) (auto simp: escalates_def split: sum.splits)

lemma fetchLoop_stops:
  assumes "tier \<le> maxTier (options eng)"
    and "callTier env u (timeout (options eng)) tier = (now, res)"
    and "\<not> escalates eng tier res"
  shows "fetchLoop env u eng tier called =
         \<lparr>engine = enterTier eng tier, invoked = called @ now,
          outcome = (case res of
                       Inr result \<Rightarrow> Inr (result\<lparr>tierUsed := tier\<rparr>)
                     | Inl error \<Rightarrow>
                         if code error = HTTP_CLIENT_ERROR \<or> code error = HTTP_SERVER_ERROR
                         then Inl error else Inl (wrapError (IsBrowserError error)))\<rparr>"
  using assms by (subst fetchLoop.simps) (auto simp: escalates_def split: sum.splits)

lemma fetchLoop_invoked:
  "\<exists>new. invoked (fetchLoop env u eng tier called) = called @ new \<and> sorted_wrt (<) new \<and>
         (\<forall>t\<in>set new. tier \<le> t \<and> t \<le> maxTier (options eng))"
proof (induction "Suc (maxTier (options eng)) - tier" arbitrary: eng tier called)
  case 0
  then have "\<not> tier \<le> maxTier (options eng)" by simp
  then show ?case by (simp add: fetchLoop_exhausted)
next
  case (Suc n)
  then have le: "tier \<le> maxTier (options eng)" by simp
  obtain now res where c: "callTier env u (timeout (options eng)) tier = (now, res)"
    by (cases "callTier env u (timeout (options eng)) tier")
  have now: "now = (if tier = 1 \<or> tier = 2 \<or> tier = 3 then [tier] else [])"
    using callTier_invoked [of env u "timeout (options eng)" tier] c by simp
  show ?case
  proof (cases "escalates eng tier res")
    case True
    have "n = Suc (maxTier (options (enterTier eng tier))) - (tier + 1)"
      using Suc.hyps(2) by simp
    from Suc.hyps(1) [OF this, of "called @ now"]
    obtain new where new: "invoked (fetchLoop env u (enterTier eng tier) (tier + 1) (called @ now))
          = (called @ now) @ new" "sorted_wrt (<) new"
        "\<forall>t\<in>set new. tier + 1 \<le> t \<and> t \<le> maxTier (options eng)"
      by auto
    have "invoked (fetchLoop env u eng tier called) = called @ (now @ new)"
      using fetchLoop_escalates [OF le c True, of called] new(1) by simp
    moreover have "sorted_wrt (<) (now @ new)"
      using new(2,3) now by (auto simp: sorted_wrt_append)
    moreover have "\<forall>t\<in>set (now @ new). tier \<le> t \<and> t \<le> maxTier (options eng)"
      using new(3) now le by (auto split: if_splits)
    ultimately show ?thesis by blast
  next
    case False
    have "invoked (fetchLoop env u eng tier called) = called @ now"
      using fetchLoop_stops [OF le c False, of called] by simp
    moreover have "sorted_wrt (<) now" using now by simp
    moreover have "\<forall>t\<in>set now. tier \<le> t \<and> t \<le> maxTier (options eng)"
      using now le by (auto split: if_splits)
    ultimately show ?thesis by blast
  qed
qed

text \<open>
  Claim C1. Within one call of \<open>Engine.fetch\<close>, for every URL, environment and engine,
  the tiers whose fetchers are invoked form a strictly increasing sequence, and none of them
  exceeds the configured ceiling \<open>maxTier\<close>.
\<close>

theorem fetch_tier_ordering:
  "sorted_wrt (<) (invoked (Engine_fetch env eng u)) \<and>
   (\<forall>t\<in>set (invoked (Engine_fetch env eng u)). t \<le> maxTier (options eng))"
proof -
  define tier where "tier = (if autoEscalate (options eng) then 1 else maxTier (options eng))"
  obtain new where
    "invoked (fetchLoop env u (eng\<lparr>currentTier := tier\<rparr>) tier []) = [] @ new"
    "sorted_wrt (<) new"
    "\<forall>t\<in>set new. tier \<le> t \<and> t \<le> maxTier (options (eng\<lparr>currentTier := tier\<rparr>))"
    using fetchLoop_invoked [of env u "eng\<lparr>currentTier := tier\<rparr>" tier "[]"] by blast
  then show ?thesis by (simp add: Engine_fetch_def Let_def tier_def [symmetric])
qed

theorem fetch_tier_ordering_witness:
  "invoked (Engine_fetch spaEnv defaultEngine ''https://example.com/'') = [1, 2] \<and>
   sorted_wrt (<) (invoked (Engine_fetch spaEnv defaultEngine ''https://example.com/'')) \<and>
   list_all (\<lambda>t. t \<le> maxTier (options defaultEngine))
     (invoked (Engine_fetch spaEnv defaultEngine ''https://example.com/''))"
proof -
  have "invoked (Engine_fetch spaEnv defaultEngine ''https://example.com/'') = [1, 2]"
    by (rule spa_run_invoked)
  moreover have "maxTier (options defaultEngine) = 3"
    by (simp add: engine_eval defaultEngine_def)
  ultimately show ?thesis
    using fetch_tier_ordering [of spaEnv defaultEngine "''https://example.com/''"]
    by (simp add: list_all_iff)
qed

lemma fetchLoop_http_error:
  assumes "invoked (fetchLoop env u eng tier called) = called @ new"
    and "t \<in> set new"
    and "snd (callTier env u (timeout (options eng)) t) = Inl e"
    and "code e = HTTP_CLIENT_ERROR \<or> code e = HTTP_SERVER_ERROR"
  shows "outcome (fetchLoop env u eng tier called) = Inl e \<and> (\<forall>t'\<in>set new. t' \<le> t)"
  using assms
proof (induction "Suc (maxTier (options eng)) - tier" arbitrary: eng tier called new)
  case 0
  then have "\<not> tier \<le> maxTier (options eng)" by simp
  then have "invoked (fetchLoop env u eng tier called) = called" by (rule fetchLoop_exhausted)
  with "0.prems"(1,2) show ?case by simp
next
  case (Suc n)
  then have le: "tier \<le> maxTier (options eng)" by simp
  obtain now res where c: "callTier env u (timeout (options eng)) tier = (now, res)"
    by (cases "callTier env u (timeout (options eng)) tier")
  have now: "now = (if tier = 1 \<or> tier = 2 \<or> tier = 3 then [tier] else [])"
    using callTier_invoked [of env u "timeout (options eng)" tier] c by simp
  show ?case
  proof (cases "escalates eng tier res")
    case True
    have n: "n = Suc (maxTier (options (enterTier eng tier))) - (tier + 1)"
      using Suc.hyps(2) by simp
    have step: "fetchLoop env u eng tier called =
        fetchLoop env u (enterTier eng tier) (tier + 1) (called @ now)"
      by (rule fetchLoop_escalates [OF le c True])
    obtain new' where new': "invoked (fetchLoop env u (enterTier eng tier) (tier + 1) (called @ now))
          = (called @ now) @ new'"
        "\<forall>t\<in>set new'. tier + 1 \<le> t \<and> t \<le> maxTier (options (enterTier eng tier))"
      using fetchLoop_invoked [of env u "enterTier eng tier" "tier + 1" "called @ now"] by blast
    with Suc.prems(1) step have new: "new = now @ new'" by simp
    have "t \<noteq> tier"
    proof
      assume "t = tier"
      with Suc.prems(3) c have "res = Inl e" by simp
      with True Suc.prems(4) show False by (simp add: escalates_def)
    qed
    with Suc.prems(2) new now have t: "t \<in> set new'" by (auto split: if_splits)
    have "outcome (fetchLoop env u (enterTier eng tier) (tier + 1) (called @ now)) = Inl e \<and>
          (\<forall>t'\<in>set new'. t' \<le> t)"
      using Suc.hyps(1) [OF n new'(1) t] Suc.prems(3,4) by simp
    moreover have "tier \<le> t" using new'(2) t by auto
    ultimately show ?thesis using step new now by (auto split: if_splits)
  next
    case False
    have stop: "fetchLoop env u eng tier called =
         \<lparr>engine = enterTier eng tier, invoked = called @ now,
          outcome = (case res of
                       Inr result \<Rightarrow> Inr (result\<lparr>tierUsed := tier\<rparr>)
                     | Inl error \<Rightarrow>
                         if code error = HTTP_CLIENT_ERROR \<or> code error = HTTP_SERVER_ERROR
                         then Inl error else Inl (wrapError (IsBrowserError error)))\<rparr>"
      by (rule fetchLoop_stops [OF le c False])
    with Suc.prems(1) have new: "new = now" by simp
    with Suc.prems(2) now have teq: "t = tier" by (auto split: if_splits)
    with Suc.prems(3) c have "res = Inl e" by simp
    with stop Suc.prems(4) have "outcome (fetchLoop env u eng tier called) = Inl e" by auto
    moreover have "\<forall>t'\<in>set new. t' \<le> t"
      unfolding new teq using now by (simp split: if_splits)
    ultimately show ?thesis by simp
  qed
qed

text \<open>
  Claim C2. If the fetcher of a tier that the engine invokes fails with an HTTP client
  (4xx) or server (5xx) error, that very error is the outcome of the call and no fetcher of
  a higher tier is invoked, whatever the ceiling and the auto-escalate setting.
\<close>

theorem fetch_http_error_short_circuit:
  assumes "t \<in> set (invoked (Engine_fetch env eng u))"
    and "snd (callTier env u (timeout (options eng)) t) = Inl e"
    and "code e = HTTP_CLIENT_ERROR \<or> code e = HTTP_SERVER_ERROR"
  shows "outcome (Engine_fetch env eng u) = Inl e \<and>
         (\<forall>t'\<in>set (invoked (Engine_fetch env eng u)). t' \<le> t)"
proof -
  define tier where "tier = (if autoEscalate (options eng) then 1 else maxTier (options eng))"
  have run: "Engine_fetch env eng u = fetchLoop env u (eng\<lparr>currentTier := tier\<rparr>) tier []"
    by (simp add: Engine_fetch_def Let_def tier_def)
  have "invoked (fetchLoop env u (eng\<lparr>currentTier := tier\<rparr>) tier []) =
        [] @ invoked (Engine_fetch env eng u)"
    by (simp add: run)
  from fetchLoop_http_error [OF this assms(1)] assms(2,3)
  show ?thesis by (simp add: run)
qed

theorem fetch_http_error_short_circuit_witness:
  "1 \<in> set (invoked (Engine_fetch notFoundEnv defaultEngine ''https://example.com/'')) \<and>
   snd (callTier notFoundEnv ''https://example.com/'' (timeout (options defaultEngine)) 1)
     = Inl (httpClientError 404 ''https://example.com/'') \<and>
   code (httpClientError 404 ''https://example.com/'') = HTTP_CLIENT_ERROR \<and>
   outcome (Engine_fetch notFoundEnv defaultEngine ''https://example.com/'')
     = Inl (httpClientError 404 ''https://example.com/'') \<and>
   invoked (Engine_fetch notFoundEnv defaultEngine ''https://example.com/'') = [1]"
proof -
  have c: "code (httpClientError 404 ''https://example.com/'') = HTTP_CLIENT_ERROR"
    by (simp add: httpClientError_def Let_def)
  have h2: "snd (callTier notFoundEnv ''https://example.com/'' (timeout (options defaultEngine)) 1)
     = Inl (httpClientError 404 ''https://example.com/'')"
    by (simp add: engine_eval notFoundEnv_def defaultEngine_def wrapError_def)
  have h4: "invoked (Engine_fetch notFoundEnv defaultEngine ''https://example.com/'') = [1]"
    by (simp add: engine_eval notFoundEnv_def defaultEngine_def wrapError_def
        httpClientError_def Let_def)
  have h1: "1 \<in> set (invoked (Engine_fetch notFoundEnv defaultEngine ''https://example.com/''))"
    by (simp add: h4)
  have h3: "code (httpClientError 404 ''https://example.com/'') = HTTP_CLIENT_ERROR \<or>
            code (httpClientError 404 ''https://example.com/'') = HTTP_SERVER_ERROR"
    by (simp add: c)
  show ?thesis
    using h1 h2 c h4 fetch_http_error_short_circuit [OF h1 h2 h3] by simp
qed


subsection \<open>The escalation trigger\<close>






subsection \<open>URLs with another scheme, and tier forcing\<close>

lemma wrapError_IsError_not_http:
  "code (wrapError (IsError nm msg)) \<noteq> HTTP_CLIENT_ERROR \<and>
   code (wrapError (IsError nm msg)) \<noteq> HTTP_SERVER_ERROR"
  by (simp add: wrapError_def Let_def)

lemma validateUrl_unsupported:
  assumes "parseUrl env u = Some protocol" and "protocol \<noteq> ''http:''" and "protocol \<noteq> ''https:''"
  shows "validateUrl env u =
         Some (wrapError (IsError ''Error'' (''Unsupported protocol: '' @ protocol)))"
  using assms by (simp add: validateUrl_def)

lemma validateUrl_transport [simp]: "validateUrl (env\<lparr>transport := tr\<rparr>) u = validateUrl env u"
  by (simp add: validateUrl_def)

lemma callTier_rejected:
  assumes "validateUrl env u = Some e" and "tier = 1 \<or> tier = 2 \<or> tier = 3"
  shows "callTier env u t tier = ([tier], Inl e)"
  using assms by (auto simp: callTier_def cheerioFetch_def jsdomFetch_def playwrightFetch_def)

lemma callTier_rejected_transport:
  assumes "validateUrl env u = Some e"
  shows "callTier (env\<lparr>transport := tr\<rparr>) u t tier = callTier env u t tier"
  using assms by (simp add: callTier_def cheerioFetch_def jsdomFetch_def playwrightFetch_def)

lemma fetchLoop_cong_env:
  assumes "\<And>tier. callTier env1 u (timeout (options eng)) tier =
                  callTier env2 u (timeout (options eng)) tier"
  shows "fetchLoop env1 u eng tier called = fetchLoop env2 u eng tier called"
  using assms
proof (induction "Suc (maxTier (options eng)) - tier" arbitrary: eng tier called)
  case 0
  then have "\<not> tier \<le> maxTier (options eng)" by simp
  then show ?case by (subst (1 2) fetchLoop.simps) simp
next
  case (Suc n)
  have n: "n = Suc (maxTier (options (enterTier eng tier))) - (tier + 1)"
    using Suc.hyps(2) by simp
  have IH: "fetchLoop env1 u (enterTier eng tier) (Suc tier) c =
            fetchLoop env2 u (enterTier eng tier) (Suc tier) c" for c
    using Suc.hyps(1) [OF n] Suc.prems by simp
  show ?case
    by (subst (1 2) fetchLoop.simps) (simp add: Suc.prems IH split: prod.splits sum.splits)
qed

lemma fetchLoop_rejected:
  assumes "validateUrl env u = Some e"
    and "code e \<noteq> HTTP_CLIENT_ERROR \<and> code e \<noteq> HTTP_SERVER_ERROR"
    and "1 \<le> tier" and "tier \<le> maxTier (options eng)" and "maxTier (options eng) \<le> 3"
  shows "invoked (fetchLoop env u eng tier called) =
           called @ (if autoEscalate (options eng) then [tier..<Suc (maxTier (options eng))]
                     else [tier]) \<and>
         outcome (fetchLoop env u eng tier called) = Inl e"
  using assms(3,4,5)
proof (induction "Suc (maxTier (options eng)) - tier" arbitrary: eng tier called)
  case 0
  then show ?case by simp
next
  case (Suc n)
  have t: "tier = 1 \<or> tier = 2 \<or> tier = 3" using Suc.prems by auto
  have c: "callTier env u (timeout (options eng)) tier = ([tier], Inl e)"
    using assms(1) t by (rule callTier_rejected)
  show ?case
  proof (cases "escalates eng tier (Inl e)")
    case True
    then have ae: "autoEscalate (options eng)" and lt: "tier < maxTier (options eng)"
      by (simp_all add: escalates_def)
    have n: "n = Suc (maxTier (options (enterTier eng tier))) - (tier + 1)"
      using Suc.hyps(2) by simp
    have "invoked (fetchLoop env u (enterTier eng tier) (tier + 1) (called @ [tier])) =
           (called @ [tier]) @ [tier + 1..<Suc (maxTier (options eng))] \<and>
         outcome (fetchLoop env u (enterTier eng tier) (tier + 1) (called @ [tier])) = Inl e"
      using Suc.hyps(1) [OF n, of "called @ [tier]"] lt Suc.prems ae by simp
    moreover have "[tier..<Suc (maxTier (options eng))] = tier # [tier + 1..<Suc (maxTier (options eng))]"
      using lt by (simp add: upt_conv_Cons)
    ultimately show ?thesis
      using fetchLoop_escalates [OF Suc.prems(2) c True, of called] ae by simp
  next
    case False
    then have stop: "\<not> autoEscalate (options eng) \<or> tier = maxTier (options eng)"
      using assms(2) Suc.prems(2) by (auto simp: escalates_def)
    have "[tier..<Suc tier] = [tier]" by simp
    with stop show ?thesis
      using fetchLoop_stops [OF Suc.prems(2) c False, of called] assms(2)
      by (auto simp: wrapError_def)
  qed
qed

text \<open>
  Claim C3, as the code has it. \<open>Engine.fetch\<close> does not look at the URL: each tier
  fetcher validates it. For a URL whose scheme is neither http nor https (and a ceiling
  that is a tier, 1 to 3), every fetcher the engine invokes rejects the URL before any
  request is made, with the classified error that \<open>wrapError\<close> makes of
  \<open>Unsupported protocol: <protocol>\<close>; the engine invokes the fetchers of tier 1 up to the
  ceiling in turn when auto-escalation is on, the fetcher of the ceiling alone when it is
  off, and then fails with that error. The run does not depend on what a request would
  have returned. The error has the code \<open>NETWORK_ERROR\<close> and is not recoverable whenever
  its lower-cased message contains none of the words by which \<open>wrapError\<close> classifies.
\<close>

theorem fetch_unsupported_scheme:
  assumes "parseUrl env u = Some protocol"
    and "protocol \<noteq> ''http:''" and "protocol \<noteq> ''https:''"
    and "1 \<le> maxTier (options eng)" and "maxTier (options eng) \<le> 3"
  shows "outcome (Engine_fetch env eng u) =
           Inl (wrapError (IsError ''Error'' (''Unsupported protocol: '' @ protocol))) \<and>
         invoked (Engine_fetch env eng u) =
           (if autoEscalate (options eng) then [1..<Suc (maxTier (options eng))]
            else [maxTier (options eng)]) \<and>
         Engine_fetch (env\<lparr>transport := tr\<rparr>) eng u = Engine_fetch env eng u \<and>
         ((\<forall>k\<in>set [''enotfound'', ''getaddrinfo'', ''etimedout'', ''timeout'', ''ssl'',
                     ''certificate'', ''fetch'', ''network'', ''econnrefused'', ''socket''].
             \<not> str_includes (toLowerCase (''Unsupported protocol: '' @ protocol)) k) \<longrightarrow>
          code (wrapError (IsError ''Error'' (''Unsupported protocol: '' @ protocol)))
            = NETWORK_ERROR \<and>
          \<not> recoverable (wrapError (IsError ''Error'' (''Unsupported protocol: '' @ protocol))))"
proof -
  define e where "e = wrapError (IsError ''Error'' (''Unsupported protocol: '' @ protocol))"
  define tier where "tier = (if autoEscalate (options eng) then 1 else maxTier (options eng))"
  let ?eng = "eng\<lparr>currentTier := tier\<rparr>"
  have v: "validateUrl env u = Some e"
    unfolding e_def using assms(1,2,3) by (rule validateUrl_unsupported)
  have nh: "code e \<noteq> HTTP_CLIENT_ERROR \<and> code e \<noteq> HTTP_SERVER_ERROR"
    unfolding e_def by (rule wrapError_IsError_not_http)
  have run: "Engine_fetch env' eng u = fetchLoop env' u ?eng tier []" for env'
    by (simp add: Engine_fetch_def Let_def tier_def)
  have "1 \<le> tier" "tier \<le> maxTier (options ?eng)" "maxTier (options ?eng) \<le> 3"
    using assms(4,5) by (simp_all add: tier_def)
  from fetchLoop_rejected [OF v nh this, of "[]"]
  have a: "outcome (Engine_fetch env eng u) = Inl e"
    and b: "invoked (Engine_fetch env eng u) =
           (if autoEscalate (options eng) then [1..<Suc (maxTier (options eng))]
            else [maxTier (options eng)])"
    by (auto simp: run tier_def)
  have c: "Engine_fetch (env\<lparr>transport := tr\<rparr>) eng u = Engine_fetch env eng u"
    unfolding run by (rule fetchLoop_cong_env) (rule callTier_rejected_transport [OF v])
  have d: "(\<forall>k\<in>set [''enotfound'', ''getaddrinfo'', ''etimedout'', ''timeout'', ''ssl'',
                     ''certificate'', ''fetch'', ''network'', ''econnrefused'', ''socket''].
             \<not> str_includes (toLowerCase (''Unsupported protocol: '' @ protocol)) k) \<longrightarrow>
          code e = NETWORK_ERROR \<and> \<not> recoverable e"
    unfolding e_def by (simp add: wrapError_def isNetworkError_def Let_def)
  from a b c d show ?thesis unfolding e_def by blast
qed

lemma ftp_error:
  "wrapError (IsError ''Error'' ''Unsupported protocol: ftp:'') =
     \<lparr>code = NETWORK_ERROR, message = ''Unsupported protocol: ftp:'', recoverable = False,
      suggestion = None, details = None\<rparr>"
  by code_simp

text \<open>
  Claim C3 as stated fails: for \<open>ftp://example.com/file\<close> the engine with the default
  options invokes the fetchers of all three tiers.
\<close>

theorem fetch_unsupported_scheme_counterexample:
  "invoked (Engine_fetch ftpEnv defaultEngine ''ftp://example.com/file'') = [1, 2, 3]"
  by (simp add: engine_eval ftpEnv_def defaultEngine_def ftp_error)

theorem fetch_unsupported_scheme_witness:
  "parseUrl ftpEnv ''ftp://example.com/file'' = Some ''ftp:'' \<and>
   1 \<le> maxTier (options defaultEngine) \<and> maxTier (options defaultEngine) \<le> 3 \<and>
   outcome (Engine_fetch ftpEnv defaultEngine ''ftp://example.com/file'') =
     Inl \<lparr>code = NETWORK_ERROR, message = ''Unsupported protocol: ftp:'', recoverable = False,
          suggestion = None, details = None\<rparr> \<and>
   Engine_fetch (ftpEnv\<lparr>transport := transport spaEnv\<rparr>) defaultEngine ''ftp://example.com/file''
     = Engine_fetch ftpEnv defaultEngine ''ftp://example.com/file''"
proof -
  have h1: "parseUrl ftpEnv ''ftp://example.com/file'' = Some ''ftp:''"
    by (simp add: ftpEnv_def)
  have h2: "''ftp:'' \<noteq> ''http:''" and h3: "''ftp:'' \<noteq> ''https:''" by simp_all
  have h4: "1 \<le> maxTier (options defaultEngine)" and h5: "maxTier (options defaultEngine) \<le> 3"
    by (simp_all add: engine_eval defaultEngine_def)
  show ?thesis
    using h1 h4 h5 fetch_unsupported_scheme [OF h1 h2 h3 h4 h5, of "transport spaEnv"]
    by (simp add: ftp_error)
qed

lemma setTier_above_ceiling:
  "maxTier (options eng) < t \<Longrightarrow> \<exists>e. Engine_setTier eng t = Inl e"
  by (simp add: Engine_setTier_def)

lemma setTier_within_ceiling:
  "t \<le> maxTier (options eng) \<Longrightarrow>
   Engine_setTier eng t =
     Inr (eng\<lparr>currentTier := t, options := (options eng)\<lparr>autoEscalate := False\<rparr>\<rparr>)"
  by (simp add: Engine_setTier_def)

lemma fetch_after_setTier_invokes_ceiling:
  assumes "Engine_setTier eng t = Inr eng'"
    and "maxTier (options eng) = 1 \<or> maxTier (options eng) = 2 \<or> maxTier (options eng) = 3"
  shows "invoked (Engine_fetch env eng' u) = [maxTier (options eng)]"
proof -
  from assms(1) have eng': "eng' = eng\<lparr>currentTier := t, options := (options eng)\<lparr>autoEscalate := False\<rparr>\<rparr>"
    by (simp add: Engine_setTier_def split: if_splits)
  define m where "m = maxTier (options eng)"
  let ?eng = "eng'\<lparr>currentTier := m\<rparr>"
  have run: "Engine_fetch env eng' u = fetchLoop env u ?eng m []"
    by (simp add: Engine_fetch_def Let_def eng' m_def)
  obtain now res where c: "callTier env u (timeout (options ?eng)) m = (now, res)"
    by (cases "callTier env u (timeout (options ?eng)) m")
  have now: "now = [m]"
    using callTier_invoked [of env u "timeout (options ?eng)" m] c assms(2) by (auto simp: m_def)
  have le: "m \<le> maxTier (options ?eng)" by (simp add: eng' m_def)
  have stop: "\<not> escalates ?eng m res"
    by (simp add: escalates_def eng' split: sum.splits)
  show ?thesis
    using fetchLoop_stops [OF le c stop, of "[]"] now by (simp add: run m_def)
qed

text \<open>
  Claim C4 at a failing input. On an engine with the default options, \<open>setTier(1)\<close>
  succeeds, sets \<open>currentTier\<close> to 1 and turns auto-escalation off; the next \<open>fetch\<close>
  then starts at \<open>maxTier\<close>, invokes the tier 3 fetcher alone and leaves \<open>currentTier\<close> at 3.
\<close>

theorem setTier_next_fetch_uses_ceiling:
  "Engine_setTier defaultEngine 1 = Inr pinnedEngine \<and>
   Engine_getActiveTier pinnedEngine = 1 \<and>
   invoked (Engine_fetch spaEnv pinnedEngine ''https://example.com/'') = [3] \<and>
   Engine_getActiveTier (engine (Engine_fetch spaEnv pinnedEngine ''https://example.com/'')) = 3"
  by (simp add: engine_eval Engine_setTier_def Engine_getActiveTier_def pinnedEngine_def
      defaultEngine_def spaEnv_def str_includes_def)

section \<open>Properties of the semantic search\<close>


lemma scoreChunks_all_below:
  assumes "\<forall>(c, e)\<in>set ces. \<exists>s. cosineSimilarity q e = Inr s \<and> s < thr"
  shows "scoreChunks q thr ces = Inr []"
  using assms by (induction ces) auto





lemma zip_map_same: "zip xs (map f xs) = map (\<lambda>x. (x, f x)) xs"
  by (induction xs) auto

text \<open>
  Claim C8, as the code has it. When every chunk that \<open>filterByQuery\<close> extracts has a
  similarity with the query below the threshold, \<open>matchedChunks\<close> is 0, and
  \<open>filteredContent\<close> is the empty string provided at least one chunk was extracted; when
  no chunk was extracted at all, \<open>filteredContent\<close> is the original content for a string
  and the empty string for an array of nodes.
\<close>

theorem filterByQuery_no_match:
  assumes "\<forall>c\<in>set (case cont of Text s \<Rightarrow> extractChunksFromText s | Nodes ns \<Rightarrow> extractChunks ns).
             \<exists>s. cosineSimilarity (model query) (model (chunkText c)) = Inr s \<and>
                 s < (case optThreshold of None \<Rightarrow> SIMILARITY_THRESHOLD | Some t \<Rightarrow> t)"
  shows "\<exists>r. snd (filterByQuery model cont query optTopK optThreshold) = Inr r \<and>
             matchedChunks r = 0 \<and>
             filteredContent r =
               (if (case cont of Text s \<Rightarrow> extractChunksFromText s | Nodes ns \<Rightarrow> extractChunks ns)
                     = []
                then (case cont of Text s \<Rightarrow> s | Nodes ns \<Rightarrow> [])
                else [])"
proof -
  define chunks where
    "chunks = (case cont of Text s \<Rightarrow> extractChunksFromText s | Nodes ns \<Rightarrow> extractChunks ns)"
  define thr where "thr = (case optThreshold of None \<Rightarrow> SIMILARITY_THRESHOLD | Some t \<Rightarrow> t)"
  define opts where
    "opts = \<lparr>topK = optTopK, threshold = optThreshold, precomputedEmbeddings = None\<rparr>"
  show ?thesis
  proof (cases "chunks = []")
    case True
    then show ?thesis
      unfolding chunks_def by (simp add: filterByQuery_def Let_def)
  next
    case False
    have "\<forall>(c, e)\<in>set (zip chunks (map model (map chunkText chunks))).
            \<exists>s. cosineSimilarity (model query) e = Inr s \<and> s < thr"
      using assms unfolding chunks_def [symmetric] thr_def [symmetric]
      by (auto simp: zip_map_same comp_def)
    then have "scoreChunks (model query) thr (zip chunks (map model (map chunkText chunks))) = Inr []"
      by (rule scoreChunks_all_below)
    then have "snd (semanticSearch model query chunks opts) = Inr []"
      using False by (simp add: semanticSearch_def Let_def opts_def thr_def)
    then obtain calls where "semanticSearch model query chunks opts = (calls, Inr [])"
      by (cases "semanticSearch model query chunks opts") auto
    then show ?thesis
      using False unfolding chunks_def opts_def by (simp add: filterByQuery_def Let_def)
  qed
qed

lemma short_text_no_chunks: "extractChunksFromText ''hi'' = []"
  by code_simp

text \<open>
  Claim C8 as stated fails: the string \<open>hi\<close> has no paragraph of more than 10
  characters, so no chunk clears the threshold, and \<open>filteredContent\<close> is the original
  string.
\<close>

theorem filterByQuery_no_match_counterexample:
  "snd (filterByQuery axisModel (Text ''hi'') ''completely unrelated quantum physics''
          None (Some 0.95)) =
     Inr \<lparr>filteredContent = ''hi'', results = [], totalChunks = 0, matchedChunks = 0\<rparr>"
  by (simp add: filterByQuery_def short_text_no_chunks)

lemma one_paragraph_chunks:
  "extractChunksFromText ''single paragraph text here'' =
     [\<lparr>chunkText = ''single paragraph text here'', index = 0, chunkType = Some ''paragraph'',
       embedding = None\<rparr>]"
  by code_simp

theorem filterByQuery_no_match_witness:
  "extractChunksFromText ''single paragraph text here'' =
     [\<lparr>chunkText = ''single paragraph text here'', index = 0, chunkType = Some ''paragraph'',
       embedding = None\<rparr>] \<and>
   cosineSimilarity (axisModel ''completely unrelated quantum physics'')
     (axisModel ''single paragraph text here'') = Inr 0 \<and>
   (\<exists>r. snd (filterByQuery axisModel (Text ''single paragraph text here'')
                ''completely unrelated quantum physics'' None (Some 0.9)) = Inr r \<and>
        matchedChunks r = 0 \<and> filteredContent r = [])"
proof -
  have c: "cosineSimilarity (axisModel ''completely unrelated quantum physics'')
             (axisModel ''single paragraph text here'') = Inr 0"
    by (simp add: axisModel_def cosineSimilarity_def)
  have h: "\<forall>c\<in>set (case Text ''single paragraph text here'' of
                      Text s \<Rightarrow> extractChunksFromText s | Nodes ns \<Rightarrow> extractChunks ns).
      \<exists>s. cosineSimilarity (axisModel ''completely unrelated quantum physics'')
             (axisModel (chunkText c)) = Inr s \<and>
          s < (case Some 0.9 of None \<Rightarrow> SIMILARITY_THRESHOLD | Some t \<Rightarrow> t)"
    by (simp add: one_paragraph_chunks c)
  show ?thesis
    using c filterByQuery_no_match [OF h, of None]
    by (simp add: one_paragraph_chunks)
qed

section \<open>Properties of the token utilities\<close>

lemma originalTokens_truncateContent:
  "originalTokens (truncateContent ns B opts) =
     sum_list (map (\<lambda>it. estimateTokens (getContentText it)) ns)"
  by (simp add: truncateContent_def Let_def itemWithTokens_def comp_def split: prod.splits)

lemma originalTokens_truncateText:
  "originalTokens (truncateText s B m i) = estimateTokens s"
  by (simp add: truncateText_def Let_def)

text \<open>
  Claim C9. \<open>truncate\<close> is the identity on content within budget: when the estimated token
  count of the content (for a string its estimate, for an array of nodes the sum of the
  estimates of the nodes' texts, which is what \<open>truncate\<close> reports as \<open>originalTokens\<close>)
  is at most the budget, the result has \<open>truncated = false\<close>, carries the content
  unchanged, and reports nothing omitted.
\<close>

theorem truncate_within_budget_identity:
  assumes "int (case c of
                  Text s \<Rightarrow> estimateTokens s
                | Nodes ns \<Rightarrow> (\<Sum>it\<leftarrow>ns. estimateTokens (getContentText it))) \<le> B"
  shows "truncated (truncate c B opts) = False \<and> content (truncate c B opts) = c \<and>
         int (originalTokens (truncate c B opts)) \<le> B \<and>
         returnedTokens (truncate c B opts) = originalTokens (truncate c B opts) \<and>
         itemsOmitted (truncate c B opts) = 0"
proof (cases c)
  case (Nodes ns)
  with assms have "int (\<Sum>it\<leftarrow>ns. estimateTokens (getContentText it)) \<le> B"
    by simp
  then show ?thesis
    using Nodes by (simp add: truncate_def truncateContent_def Let_def itemWithTokens_def comp_def)
next
  case (Text s)
  with assms have "int (estimateTokens s) \<le> B"
    by simp
  then show ?thesis
    using Text by (simp add: truncate_def truncateText_def Let_def)
qed

theorem truncate_within_budget_identity_witness:
  "int (\<Sum>it\<leftarrow>sampleContent. estimateTokens (getContentText it)) \<le> 1000 \<and>
   truncated (truncate (Nodes sampleContent) 1000 noOptions) = False \<and>
   content (truncate (Nodes sampleContent) 1000 noOptions) = Nodes sampleContent \<and>
   int (estimateTokens ''hello world'') \<le> 3 \<and>
   truncated (truncate (Text ''hello world'') 3 noOptions) = False \<and>
   content (truncate (Text ''hello world'') 3 noOptions) = Text ''hello world''"
proof -
  have e1: "int (\<Sum>it\<leftarrow>sampleContent. estimateTokens (getContentText it)) \<le> 1000"
    by code_simp
  have e2: "int (estimateTokens ''hello world'') \<le> 3"
    by code_simp
  have h1: "int (case Nodes sampleContent of
                   Text s \<Rightarrow> estimateTokens s
                 | Nodes ns \<Rightarrow> (\<Sum>it\<leftarrow>ns. estimateTokens (getContentText it))) \<le> 1000"
    using e1 by simp
  have h2: "int (case Text ''hello world'' of
                   Text s \<Rightarrow> estimateTokens s
                 | Nodes ns \<Rightarrow> (\<Sum>it\<leftarrow>ns. estimateTokens (getContentText it))) \<le> 3"
    using e2 by simp
  show ?thesis
    using e1 e2 truncate_within_budget_identity [OF h1, of noOptions]
      truncate_within_budget_identity [OF h2, of noOptions]
    by simp
qed

subsection \<open>The greedy selection of \<open>truncateContent\<close>\<close>

lemma greedy_subset:
  "fst (greedy B ind its (sel, used)) \<subseteq> sel \<union> originalIndex ` set its"
  by (induction its arbitrary: sel used) (auto split: if_splits)

lemma greedy_budget_inv:
  "int (used + ind) \<le> B \<Longrightarrow> int (snd (greedy B ind its (sel, used)) + ind) \<le> B"
  by (induction its arbitrary: sel used) auto

lemma greedy_unchanged_or_within:
  "greedy B ind its (sel, used) = (sel, used) \<or>
   int (snd (greedy B ind its (sel, used)) + ind) \<le> B"
proof (induction its arbitrary: sel used)
  case Nil
  then show ?case by simp
next
  case (Cons it its)
  show ?case
  proof (cases "int (used + tokens it + ind) \<le> B")
    case True
    then have "int (snd (greedy B ind its (insert (originalIndex it) sel, used + tokens it)) + ind) \<le> B"
      by (intro greedy_budget_inv) simp
    with True show ?thesis by simp
  next
    case False
    with Cons.IH [of sel used] show ?thesis by simp
  qed
qed

lemma greedy_all_selected:
  assumes "distinct (map originalIndex its)"
    and "originalIndex ` set its \<inter> sel = {}"
    and "originalIndex ` set its \<subseteq> fst (greedy B ind its (sel, used))"
  shows "snd (greedy B ind its (sel, used)) = used + sum_list (map tokens its)"
  using assms
proof (induction its arbitrary: sel used)
  case Nil
  then show ?case by simp
next
  case (Cons it its)
  show ?case
  proof (cases "int (used + tokens it + ind) \<le> B")
    case True
    have "snd (greedy B ind its (insert (originalIndex it) sel, used + tokens it)) =
          used + tokens it + sum_list (map tokens its)"
      using Cons.prems True by (intro Cons.IH) auto
    with True show ?thesis by simp
  next
    case False
    have "fst (greedy B ind its (sel, used)) \<subseteq> sel \<union> originalIndex ` set its"
      by (rule greedy_subset)
    moreover have "originalIndex it \<in> fst (greedy B ind its (sel, used))"
      using Cons.prems(3) False by simp
    ultimately have False using Cons.prems(1,2) by auto
    then show ?thesis ..
  qed
qed

lemma map_originalIndex_withIndex: "map originalIndex (withIndex xs) = [0..<length xs]"
  by (simp add: withIndex_def comp_def case_prod_unfold map_snd_zip)

lemma map_tokens_withIndex: "map tokens (withIndex xs) = map tokens xs"
  by (auto intro!: nth_equalityI simp: withIndex_def)

lemma tokens_applyCustomPriority: "tokens (applyCustomPriority po it) = tokens it"
  by (simp add: applyCustomPriority_def split: option.splits)

lemma mset_sortItems: "mset (sortItems xs) = mset xs"
  by (simp add: sortItems_def)

lemma sum_tokens_sortItems: "sum_list (map tokens (sortItems xs)) = sum_list (map tokens xs)"
proof -
  have "mset (map tokens (sortItems xs)) = mset (map tokens xs)"
    by (simp add: mset_sortItems)
  then show ?thesis by (metis sum_mset_sum_list)
qed

lemma set_originalIndex_sortItems:
  "originalIndex ` set (sortItems (withIndex xs)) = {0..<length xs}"
proof -
  have "set (sortItems (withIndex xs)) = set (withIndex xs)"
    by (simp add: sortItems_def)
  then have "originalIndex ` set (sortItems (withIndex xs)) = set (map originalIndex (withIndex xs))"
    by simp
  then show ?thesis by (simp add: map_originalIndex_withIndex)
qed

lemma distinct_originalIndex_sortItems:
  "distinct (map originalIndex (sortItems (withIndex xs)))"
proof -
  have "mset (map originalIndex (sortItems (withIndex xs))) = mset (map originalIndex (withIndex xs))"
    by (simp add: mset_sortItems)
  moreover have "distinct (map originalIndex (withIndex xs))"
    by (simp add: map_originalIndex_withIndex)
  ultimately show ?thesis by (metis mset_eq_imp_distinct_iff)
qed

lemma selected_subseq_take:
  "n \<le> length xs \<Longrightarrow>
   subseq (map (\<lambda>i. xs ! i) (filter (\<lambda>i. i \<in> S) [0..<n])) (take n xs)"
proof (induction n)
  case 0
  then show ?case by simp
next
  case (Suc n)
  then have IH: "subseq (map (\<lambda>i. xs ! i) (filter (\<lambda>i. i \<in> S) [0..<n])) (take n xs)"
    and n: "n < length xs" by simp_all
  have tk: "take (Suc n) xs = take n xs @ [xs ! n]"
    using n by (simp add: take_Suc_conv_app_nth)
  show ?case
  proof (cases "n \<in> S")
    case True
    then show ?thesis using IH tk by simp
  next
    case False
    then show ?thesis using IH tk by auto
  qed
qed

lemma selected_subseq:
  "subseq (map (\<lambda>i. xs ! i) (filter (\<lambda>i. i \<in> S) [0..<length xs])) xs"
  using selected_subseq_take [of "length xs" xs S] by simp


lemma greedy_cannot_select_all:
  assumes "its \<noteq> []" and "distinct (map originalIndex its)"
    and "originalIndex ` set its \<subseteq> fst (greedy B ind its ({}, 0))"
  shows "int (sum_list (map tokens its)) \<le> B"
proof -
  have used: "snd (greedy B ind its ({}, 0)) = sum_list (map tokens its)"
    using greedy_all_selected [of its "{}" B ind 0] assms by simp
  from greedy_unchanged_or_within [of B ind its "{}" 0]
  show ?thesis
  proof
    assume "greedy B ind its ({}, 0) = ({}, 0)"
    with assms(1,3) show ?thesis by (cases its) auto
  next
    assume "int (snd (greedy B ind its ({}, 0)) + ind) \<le> B"
    with used show ?thesis by simp
  qed
qed

lemma sum_tokens_prioritised:
  "sum_list (map tokens (map (applyCustomPriority po) xs)) = sum_list (map tokens xs)"
  by (simp add: comp_def tokens_applyCustomPriority)

lemma length_filter_full: "length (filter P xs) = length xs \<Longrightarrow> \<forall>x\<in>set xs. P x"
  by (metis length_filter_less nat_neq_iff)

text \<open>
  Claim C10. For a non-empty array of nodes, a result with \<open>truncated = true\<close> omits at
  least one node: the total estimate exceeds the budget, and a greedy pass that accepted
  every node would have checked that total (plus the indicator allowance) against the budget
  at its last acceptance.
\<close>

theorem truncateContent_truncated_omits:
  assumes "cont \<noteq> []" and "truncated (truncateContent cont B opts)"
  shows "1 \<le> itemsOmitted (truncateContent cont B opts)"
proof (rule ccontr)
  assume neg: "\<not> 1 \<le> itemsOmitted (truncateContent cont B opts)"
  define ind :: nat where
    "ind = (if (case addIndicator opts of None \<Rightarrow> True | Some b \<Rightarrow> b) then 20 else 0)"
  define items where
    "items = map (applyCustomPriority (priorityOrder opts)) (map itemWithTokens cont)"
  define its where "its = sortItems (withIndex items)"
  define sel where "sel = fst (greedy B ind its ({}, 0))"
  have len: "length items = length cont" by (simp add: items_def)
  have over: "\<not> int (sum_list (map tokens (map itemWithTokens cont))) \<le> B"
    using assms(2) by (auto simp: truncateContent_def Let_def split: if_splits prod.splits)
  have om: "itemsOmitted (truncateContent cont B opts) =
        length cont - length (filter (\<lambda>i. i \<in> sel) [0..<length cont])"
    using over
    by (simp add: truncateContent_def Let_def sel_def its_def items_def ind_def split: prod.splits)
  have "length (filter (\<lambda>i. i \<in> sel) [0..<length cont]) \<le> length [0..<length cont]"
    by (rule length_filter_le)
  with neg om have "length (filter (\<lambda>i. i \<in> sel) [0..<length cont]) = length [0..<length cont]"
    by simp
  then have all: "\<forall>i\<in>set [0..<length cont]. i \<in> sel" by (rule length_filter_full)
  have "originalIndex ` set its = {0..<length cont}"
    unfolding its_def using set_originalIndex_sortItems [of items] len by simp
  with all have "originalIndex ` set its \<subseteq> fst (greedy B ind its ({}, 0))"
    unfolding sel_def by auto
  moreover have "its \<noteq> []"
  proof -
    have "length its = length cont" unfolding its_def sortItems_def withIndex_def using len by simp
    with assms(1) show ?thesis by auto
  qed
  moreover have "distinct (map originalIndex its)"
    unfolding its_def by (rule distinct_originalIndex_sortItems)
  ultimately have "int (sum_list (map tokens its)) \<le> B"
    by (intro greedy_cannot_select_all)
  moreover have "sum_list (map tokens its) = sum_list (map tokens (map itemWithTokens cont))"
    unfolding its_def items_def
    by (simp only: sum_tokens_sortItems map_tokens_withIndex sum_tokens_prioritised)
  ultimately show False using over by simp
qed


text \<open>
  Claim C5, as the code has it. The greedy pass reserves the indicator allowance (20 tokens
  when the indicator is enabled, none when it is disabled) only while it accepts nodes; when
  no node fits, the indicator is appended all the same and its 20 tokens are reported. So
  \<open>returnedTokens\<close> is at most the larger of the budget and the allowance, hence at most the
  budget whenever the budget is at least the allowance. The returned nodes, without the one
  indicator node appended when nodes were omitted and the indicator is enabled, are a
  subsequence of the input: a subset in the original relative order.
\<close>

theorem truncateContent_budget_and_order:
  "int (returnedTokens (truncateContent cont B opts))
     \<le> max B (if addIndicator opts = Some False then 0 else 20) \<and>
   (\<exists>kept. subseq kept cont \<and>
      content (truncateContent cont B opts) =
        Nodes (kept @
          (if addIndicator opts \<noteq> Some False \<and> 0 < itemsOmitted (truncateContent cont B opts)
           then [indicatorNode (itemsOmitted (truncateContent cont B opts))] else [])))"
proof (cases "int (sum_list (map tokens (map itemWithTokens cont))) \<le> B")
  case True
  then have r: "truncateContent cont B opts =
      \<lparr>content = Nodes cont, originalTokens = sum_list (map tokens (map itemWithTokens cont)),
       returnedTokens = sum_list (map tokens (map itemWithTokens cont)),
       truncated = False, itemsOmitted = 0\<rparr>"
    by (simp add: truncateContent_def Let_def)
  have "subseq cont cont" by simp
  then show ?thesis using True unfolding r by auto
next
  case False
  define addInd where "addInd = (case addIndicator opts of None \<Rightarrow> True | Some b \<Rightarrow> b)"
  define ind :: nat where "ind = (if addInd then 20 else 0)"
  define its where
    "its = sortItems (withIndex
       (map (applyCustomPriority (priorityOrder opts)) (map itemWithTokens cont)))"
  obtain sel used where g: "greedy B ind its ({}, 0) = (sel, used)"
    by (cases "greedy B ind its ({}, 0)")
  define kept where "kept = map (\<lambda>i. cont ! i) (filter (\<lambda>i. i \<in> sel) [0..<length cont])"
  define omitted where "omitted = length cont - length kept"
  have r: "truncateContent cont B opts =
      (if addInd \<and> omitted > 0 then
         \<lparr>content = Nodes (kept @ [indicatorNode omitted]),
          originalTokens = sum_list (map tokens (map itemWithTokens cont)),
          returnedTokens = used + ind, truncated = True, itemsOmitted = omitted\<rparr>
       else
         \<lparr>content = Nodes kept,
          originalTokens = sum_list (map tokens (map itemWithTokens cont)),
          returnedTokens = used, truncated = True, itemsOmitted = omitted\<rparr>)"
    using False g
    unfolding truncateContent_def Let_def addInd_def [symmetric] ind_def [symmetric]
      its_def [symmetric]
    by (simp add: kept_def omitted_def)
  have ai: "addInd \<longleftrightarrow> addIndicator opts \<noteq> Some False"
    by (auto simp: addInd_def split: option.splits)
  have bud: "used = 0 \<or> int (used + ind) \<le> B"
    using greedy_unchanged_or_within [of B ind its "{}" 0] g by auto
  have sub: "subseq kept cont" unfolding kept_def by (rule selected_subseq)
  have b: "int (returnedTokens (truncateContent cont B opts)) \<le> max B (int ind)"
    using bud unfolding r by (auto simp: ind_def)
  have c: "content (truncateContent cont B opts) =
        Nodes (kept @ (if addInd \<and> 0 < itemsOmitted (truncateContent cont B opts)
           then [indicatorNode (itemsOmitted (truncateContent cont B opts))] else []))"
    unfolding r by simp
  have "max B (int ind) = max B (if addIndicator opts = Some False then 0 else 20)"
    by (simp add: ind_def ai)
  with b c sub show ?thesis unfolding ai by auto
qed

text \<open>
  Claim C5 as stated fails: with budget 5 and the indicator enabled, no node of the sample
  content fits, the result is the indicator alone, and \<open>returnedTokens\<close> is 20.
\<close>

theorem truncateContent_budget_counterexample:
  "\<not> int (returnedTokens (truncateContent sampleContent 5 noOptions)) \<le> 5"
  by code_simp

theorem truncateContent_budget_and_order_witness:
  "int (returnedTokens (truncateContent sampleContent 30 noOptions)) \<le> 30 \<and>
   truncated (truncateContent sampleContent 30 noOptions)"
proof -
  have "int (returnedTokens (truncateContent sampleContent 30 noOptions))
          \<le> max 30 (if addIndicator noOptions = Some False then 0 else 20)"
    using truncateContent_budget_and_order [of sampleContent 30 noOptions] by blast
  then have "int (returnedTokens (truncateContent sampleContent 30 noOptions)) \<le> 30"
    by (simp add: noOptions_def)
  moreover have "truncated (truncateContent sampleContent 30 noOptions)" by code_simp
  ultimately show ?thesis by simp
qed

theorem truncateContent_truncated_omits_witness:
  "sampleContent \<noteq> [] \<and> truncated (truncateContent sampleContent 30 noOptions) \<and>
   1 \<le> itemsOmitted (truncateContent sampleContent 30 noOptions)"
proof -
  have h1: "sampleContent \<noteq> []" by (simp add: sampleContent_def)
  have h2: "truncated (truncateContent sampleContent 30 noOptions)" by code_simp
  show ?thesis using h1 h2 truncateContent_truncated_omits [OF h1 h2] by simp
qed

end
